theory Spec2Isabelle
  imports Complex_Main
begin

section \<open>pythx command line: a shallow embedding of \<open>pythx/cli/main.py\<close>\<close>

text \<open>
  The embedding follows the Python source function by function. Python integers are
  \<open>int\<close>, strings are \<open>string\<close>, an exception or a \<open>sys.exit\<close> is the left
  summand of a result, and everything a function prints, logs or sends to the remote
  service is recorded, in order, in a list of events returned beside the result.
\<close>

subsection \<open>Exceptions and observable effects\<close>

datatype error =
    SystemExit int
  | OSError string
  | ValueError
  | IndexError
  | KeyError
  | TypeError
  | AttributeError
  | UnboundLocalError string
  | RemoteError string

text \<open>
  The values \<open>json.load\<close> produces: \<open>None\<close>, \<open>bool\<close>, \<open>int\<close>, \<open>float\<close>, \<open>str\<close>,
  \<open>list\<close> and \<open>dict\<close>. A float is represented by the number it denotes. A dict is the
  list of its items in insertion order; its keys are distinct, and a lookup takes the first
  item with the key.
\<close>

datatype json =
    JNull
  | JBool bool
  | JInt int
  | JFloat real
  | JString string
  | JArray "json list"
  | JObject "(string \<times> json) list"

text \<open>One row of the table that \<open>ps\<close> prints: \<open>(a.uuid, a.status, a.submitted_at)\<close>.\<close>

type_synonym ps_row = "string \<times> string \<times> string"

datatype event =
    LogError string
  | Echo string
  | EchoTable "ps_row list"
  | Prompt string
  | CallLogin
  | CallAnalysisList
  | UpdateConfig string json

subsection \<open>Formatting an integer, as \<open>str.format\<close> does\<close>

definition digit_char :: "nat \<Rightarrow> char" where
  "digit_char d = ''0123456789'' ! d"

fun str_nat :: "nat \<Rightarrow> string" where
  "str_nat n = (if n < 10 then [digit_char n] else str_nat (n div 10) @ [digit_char (n mod 10)])"

declare str_nat.simps [simp del]

definition str_int :: "int \<Rightarrow> string" where
  "str_int i = (if i < 0 then CHR ''-'' # str_nat (nat (- i)) else str_nat (nat i))"

subsection \<open>Text files\<close>

text \<open>
  A file system lists each path with the text that \<open>open(filename)\<close> delivers: the
  decoded characters, after Python's universal-newline translation, so that every line
  terminator is the single character \<open>\n\<close>. A path without an entry cannot be opened.
  The length of a line is \<open>len(line)\<close>, the number of its characters, terminator
  included.
\<close>

type_synonym filesystem = "(string \<times> string) list"

definition open_file :: "filesystem \<Rightarrow> string \<Rightarrow> string option" where
  "open_file fs filename = map_of fs filename"

definition newline :: char where
  "newline = CHR 0x0A"

text \<open>
  \<open>for line in f\<close>: the lines of the text in file order, each with its terminator; the last
  line has none when the text does not end in one. An empty text has no line.
\<close>

fun file_lines :: "string \<Rightarrow> string list" where
  "file_lines [] = []"
| "file_lines (c # cs) =
     (if c = newline then [c] # file_lines cs
      else (case file_lines cs of [] \<Rightarrow> [[c]] | l # ls \<Rightarrow> (c # l) # ls))"

subsection \<open>\<open>get_source_location_by_offset\<close>\<close>

text \<open>
  The body of the \<open>for\<close> loop, with the two counters \<open>line_ctr\<close> and \<open>overall\<close> passed
  along. \<open>None\<close> means the loop ran to the end of the file without returning.
\<close>

fun scan_lines :: "string list \<Rightarrow> int \<Rightarrow> int \<Rightarrow> int \<Rightarrow> (int \<times> int) option" where
  "scan_lines [] offset line_ctr overall = None"
| "scan_lines (line # rest) offset line_ctr overall =
     (let line_ctr' = line_ctr + 1;
          overall' = overall + int (length line)
      in if overall' \<ge> offset then Some (line_ctr', overall' - offset)
         else scan_lines rest offset line_ctr' overall')"

definition location_error_message :: "string \<Rightarrow> int \<Rightarrow> string" where
  "location_error_message filename offset =
     ''Error finding the source location in '' @ filename @ '' for offset '' @ str_int offset"

definition get_source_location_by_offset ::
  "filesystem \<Rightarrow> string \<Rightarrow> int \<Rightarrow> event list \<times> (error + int \<times> int)" where
  "get_source_location_by_offset fs filename offset =
     (case open_file fs filename of
        None \<Rightarrow> ([], Inl (OSError filename))
      | Some text \<Rightarrow>
          (case scan_lines (file_lines text) offset 0 0 of
             Some pos \<Rightarrow> ([], Inr pos)
           | None \<Rightarrow> ([LogError (location_error_message filename offset)], Inl (SystemExit 1))))"

text \<open>Quantities the properties speak about.\<close>

definition total_length :: "string list \<Rightarrow> int" where
  "total_length ls = int (length (concat ls))"

text \<open>\<open>cumulative ls k\<close>: the characters of the first \<open>k\<close> lines.\<close>

definition cumulative :: "string list \<Rightarrow> nat \<Rightarrow> int" where
  "cumulative ls k = total_length (take k ls)"

subsection \<open>Bytes on disk and the text read from them\<close>

text \<open>
  Between the bytes of a file and the text that \<open>open(filename)\<close> delivers stand the decoder
  and the newline translation. Every encoding that Python chooses by default decodes an ASCII
  byte to the character with the same code, so for a file of ASCII bytes the text delivered
  is the newline translation of its bytes: \<open>\r\n\<close> and a lone \<open>\r\<close> become \<open>\n\<close>. Where
  no byte is a carriage return the text is the bytes, and a line has as many characters as
  bytes.
\<close>

definition is_ascii :: "char \<Rightarrow> bool" where
  "is_ascii b = (of_char b < (128::nat))"

definition carriage_return :: char where
  "carriage_return = CHR 0x0D"

fun universal_newlines :: "string \<Rightarrow> string" where
  "universal_newlines [] = []"
| "universal_newlines [c] = [if c = carriage_return then newline else c]"
| "universal_newlines (c # d # ds) =
     (if c = carriage_return
      then (if d = newline then newline # universal_newlines ds
            else newline # universal_newlines (d # ds))
      else c # universal_newlines (d # ds))"


subsection \<open>Python helpers used by the commands\<close>

text \<open>Truth value of an object, as \<open>if x\<close>, \<open>x and y\<close> and \<open>not x\<close> take it.\<close>

fun truthy :: "json \<Rightarrow> bool" where
  "truthy JNull = False"
| "truthy (JBool b) = b"
| "truthy (JInt i) = (i \<noteq> 0)"
| "truthy (JFloat r) = (r \<noteq> 0)"
| "truthy (JString s) = (s \<noteq> [])"
| "truthy (JArray xs) = (xs \<noteq> [])"
| "truthy (JObject kvs) = (kvs \<noteq> [])"

text \<open>\<open>k in s\<close> for two strings: \<open>k\<close> occurs in \<open>s\<close> as a substring.\<close>

fun is_substring :: "string \<Rightarrow> string \<Rightarrow> bool" where
  "is_substring k [] = (k = [])"
| "is_substring k (c # cs) = (take (length k) (c # cs) = k \<or> is_substring k cs)"

text \<open>
  \<open>k in config\<close> for a string \<open>k\<close>: key membership in a dict, element membership in a
  list, substring test in a string; \<open>None\<close>, a bool and a number are not iterable and the
  test raises \<open>TypeError\<close>.
\<close>

fun py_contains :: "json \<Rightarrow> string \<Rightarrow> error + bool" where
  "py_contains (JObject kvs) k = Inr (k \<in> set (map fst kvs))"
| "py_contains (JArray xs) k = Inr (JString k \<in> set xs)"
| "py_contains (JString s) k = Inr (is_substring k s)"
| "py_contains JNull k = Inl TypeError"
| "py_contains (JBool b) k = Inl TypeError"
| "py_contains (JInt i) k = Inl TypeError"
| "py_contains (JFloat r) k = Inl TypeError"

text \<open>\<open>all(k in config for k in keys)\<close>: the generator is consumed up to the first false test.\<close>

fun all_keys_in :: "json \<Rightarrow> string list \<Rightarrow> error + bool" where
  "all_keys_in config [] = Inr True"
| "all_keys_in config (k # ks) =
     (case py_contains config k of
        Inl e \<Rightarrow> Inl e
      | Inr present \<Rightarrow> if present then all_keys_in config ks else Inr False)"

fun is_dict :: "json \<Rightarrow> bool" where
  "is_dict (JObject kvs) = True"
| "is_dict _ = False"

text \<open>\<open>config[k]\<close> with a string \<open>k\<close>.\<close>

fun getitem :: "json \<Rightarrow> string \<Rightarrow> error + json" where
  "getitem (JObject kvs) k = (case map_of kvs k of None \<Rightarrow> Inl KeyError | Some v \<Rightarrow> Inr v)"
| "getitem _ k = Inl TypeError"

text \<open>\<open>xs[i]\<close> on a list: a negative index counts from the end.\<close>

definition list_index :: "'a list \<Rightarrow> int \<Rightarrow> error + 'a" where
  "list_index xs i =
     (if 0 \<le> i
      then (if i < int (length xs) then Inr (xs ! nat i) else Inl IndexError)
      else (if - i \<le> int (length xs) then Inr (xs ! (length xs - nat (- i)))
            else Inl IndexError))"

text \<open>\<open>xs[:k]\<close>: a negative bound counts from the end.\<close>

definition slice_upto :: "'a list \<Rightarrow> int \<Rightarrow> 'a list" where
  "slice_upto xs k = (if k < 0 then take (nat (int (length xs) + k)) xs else take (nat k) xs)"

text \<open>\<open>s.split(":")\<close>: never empty; an empty string gives one empty field.\<close>

fun split_colon :: "string \<Rightarrow> string list" where
  "split_colon [] = [[]]"
| "split_colon (c # cs) =
     (if c = CHR '':'' then [] # split_colon cs
      else (case split_colon cs of [] \<Rightarrow> [[c]] | f # fs \<Rightarrow> (c # f) # fs))"

text \<open>
  \<open>int(s)\<close> on a string of ASCII characters: surrounding whitespace is dropped, one sign is
  allowed, then decimal digits, where single underscores may stand between digits.
  \<open>None\<close> is the \<open>ValueError\<close>. The whitespace of an ASCII string is the space and the
  five characters \<open>\t\<close>, \<open>\n\<close>, \<open>\v\<close>, \<open>\f\<close>, \<open>\r\<close>; the separators U+001C to U+001F are
  not dropped.
\<close>

definition is_space :: "char \<Rightarrow> bool" where
  "is_space c = (c \<in> set [CHR 0x09, CHR 0x0A, CHR 0x0B, CHR 0x0C, CHR 0x0D, CHR 0x20])"

definition strip :: "string \<Rightarrow> string" where
  "strip s = rev (dropWhile is_space (rev (dropWhile is_space s)))"

definition digit_val :: "char \<Rightarrow> nat option" where
  "digit_val c = map_of [(CHR ''0'', 0), (CHR ''1'', 1), (CHR ''2'', 2), (CHR ''3'', 3),
     (CHR ''4'', 4), (CHR ''5'', 5), (CHR ''6'', 6), (CHR ''7'', 7), (CHR ''8'', 8),
     (CHR ''9'', 9)] c"

fun parse_digits :: "string \<Rightarrow> bool \<Rightarrow> nat \<Rightarrow> nat option" where
  "parse_digits [] after_digit acc = (if after_digit then Some acc else None)"
| "parse_digits (c # cs) after_digit acc =
     (case digit_val c of
        Some d \<Rightarrow> parse_digits cs True (acc * 10 + d)
      | None \<Rightarrow> if c = CHR ''_'' \<and> after_digit then parse_digits cs False acc else None)"

definition py_int :: "string \<Rightarrow> int option" where
  "py_int s =
     (case strip s of
        [] \<Rightarrow> None
      | c # cs \<Rightarrow>
          if c = CHR ''-'' then map_option (\<lambda>n. - int n) (parse_digits cs False 0)
          else if c = CHR ''+'' then map_option int (parse_digits cs False 0)
          else map_option int (parse_digits (c # cs) False 0))"

subsection \<open>\<open>parse_config\<close>\<close>

definition CONFIG_KEYS :: "string list" where
  "CONFIG_KEYS = [''access'', ''refresh'', ''username'', ''password'']"

text \<open>The tuple \<open>CONFIG_KEYS\<close> as \<open>str.format\<close> prints it.\<close>

definition CONFIG_KEYS_repr :: string where
  "CONFIG_KEYS_repr = ''('access', 'refresh', 'username', 'password')''"

definition missing_keys_message :: "string \<Rightarrow> string" where
  "missing_keys_message config_path =
     ''Malformed config file at '' @ config_path @ '' doesn't contain required keys ''
       @ CONFIG_KEYS_repr"

definition missing_tokens_message :: "string \<Rightarrow> string" where
  "missing_tokens_message config_path =
     ''Malformed config file at '' @ config_path @ '' does not contain access and refresh token''"

text \<open>\<open>config["access"] and config["refresh"]\<close>, then its truth value.\<close>

definition tokens_present :: "json \<Rightarrow> error + bool" where
  "tokens_present config =
     (case getitem config ''access'' of
        Inl e \<Rightarrow> Inl e
      | Inr a \<Rightarrow>
          if truthy a then
            (case getitem config ''refresh'' of Inl e \<Rightarrow> Inl e | Inr r \<Rightarrow> Inr (truthy r))
          else Inr False)"

text \<open>
  \<open>loaded\<close> is what \<open>open(config_path)\<close> and \<open>json.load\<close> deliver: the exception they
  raise, or the decoded value.
\<close>

definition parse_config :: "string \<Rightarrow> error + json \<Rightarrow> bool \<Rightarrow> event list \<times> (error + json)" where
  "parse_config config_path loaded tokens_required =
     (case loaded of
        Inl e \<Rightarrow> ([], Inl e)
      | Inr config \<Rightarrow>
          (case all_keys_in config CONFIG_KEYS of
             Inl e \<Rightarrow> ([], Inl e)
           | Inr keys_present \<Rightarrow>
               if \<not> (is_dict config \<and> keys_present)
               then ([Echo (missing_keys_message config_path)], Inl (SystemExit 1))
               else if tokens_required
               then (case tokens_present config of
                       Inl e \<Rightarrow> ([], Inl e)
                     | Inr ok \<Rightarrow>
                         if \<not> ok
                         then ([Echo (missing_tokens_message config_path)], Inl (SystemExit 1))
                         else ([], Inr config))
               else ([], Inr config)))"

subsection \<open>The client and its surroundings\<close>

text \<open>
  The attributes of \<open>pythx.api.Client\<close> that the commands read. In the branch that reads
  the credential file they hold whatever values the file has under the four keys.
\<close>

record client =
  eth_address :: json
  password :: json
  access_token :: json
  refresh_token :: json
  staging :: bool

record analysis =
  uuid :: string
  status :: string
  submitted_at :: string

text \<open>
  What a command finds around it: whether the credential file exists and what loading it
  gives, the two environment variables, the answers typed at the prompts, and the remote
  service, whose operations either raise or return the client with its tokens updated.
\<close>

record world =
  isfile :: bool
  loaded :: "error + json"
  env_username :: "string option"
  env_password :: "string option"
  prompt_address :: string
  prompt_password :: string
  login_op :: "client \<Rightarrow> error + client"
  analysis_list_op :: "client \<Rightarrow> error + analysis list \<times> client"

subsection \<open>\<open>update_config\<close> and \<open>recover_client\<close>\<close>

definition update_config :: "string \<Rightarrow> json \<Rightarrow> json \<Rightarrow> json \<Rightarrow> json \<Rightarrow> event" where
  "update_config config_path username passwd access refresh =
     UpdateConfig config_path
       (JObject [(''username'', username), (''password'', passwd),
                 (''access'', access), (''refresh'', refresh)])"

definition save_client :: "string \<Rightarrow> client \<Rightarrow> event" where
  "save_client config_path c =
     update_config config_path (eth_address c) (password c) (access_token c) (refresh_token c)"

text \<open>\<open>environ.get(name) or click.prompt(text)\<close>: the prompt runs when the variable is unset or empty.\<close>

definition env_or_prompt :: "string option \<Rightarrow> string \<Rightarrow> string \<Rightarrow> event list \<times> string" where
  "env_or_prompt v text answer =
     (case v of
        None \<Rightarrow> ([Prompt text], answer)
      | Some x \<Rightarrow> if x \<noteq> [] then ([], x) else ([Prompt text], answer))"

definition recover_client ::
  "world \<Rightarrow> string \<Rightarrow> bool \<Rightarrow> bool \<Rightarrow> event list \<times> (error + client option)" where
  "recover_client w config_path stg exit_on_missing =
     (if \<not> isfile w then
        (if exit_on_missing then ([], Inr None)
         else
           (let (ev1, addr) = env_or_prompt (env_username w)
                                ''Please enter your Ethereum address'' (prompt_address w);
                (ev2, pw) = env_or_prompt (env_password w)
                                ''Please enter your MythX password'' (prompt_password w);
                c = \<lparr>eth_address = JString addr, password = JString pw,
                     access_token = JNull, refresh_token = JNull, staging = stg\<rparr>
            in case login_op w c of
                 Inl e \<Rightarrow> (ev1 @ ev2 @ [CallLogin], Inl e)
               | Inr c' \<Rightarrow> (ev1 @ ev2 @ [CallLogin, save_client config_path c'], Inr (Some c'))))
      else
        (case parse_config config_path (loaded w) True of
           (evs, Inl e) \<Rightarrow> (evs, Inl e)
         | (evs, Inr config) \<Rightarrow>
             (case getitem config ''username'' of
                Inl e \<Rightarrow> (evs, Inl e)
              | Inr u \<Rightarrow>
             (case getitem config ''password'' of
                Inl e \<Rightarrow> (evs, Inl e)
              | Inr p \<Rightarrow>
             (case getitem config ''access'' of
                Inl e \<Rightarrow> (evs, Inl e)
              | Inr a \<Rightarrow>
             (case getitem config ''refresh'' of
                Inl e \<Rightarrow> (evs, Inl e)
              | Inr r \<Rightarrow>
                  (evs, Inr (Some \<lparr>eth_address = u, password = p, access_token = a,
                                   refresh_token = r, staging = stg\<rparr>))))))))"

subsection \<open>\<open>ps_core\<close> and \<open>ps\<close>\<close>

definition placeholder_address :: string where
  "placeholder_address = ''0x0000000000000000000000000000000000000000''"

definition guidance_message :: string where
  "guidance_message =
     ''This functionality is only available to registered users. ''
     @ ''Head over to https://mythx.io/ and register a free account to ''
     @ ''list your past analyses. Alternatively, you can look up the ''
     @ ''status of a specific job by calling 'pythx status <uuid>'.''"

text \<open>The result is \<open>resp.analyses\<close> of the returned response.\<close>

definition ps_core ::
  "world \<Rightarrow> string \<Rightarrow> bool \<Rightarrow> int \<Rightarrow> event list \<times> (error + analysis list)" where
  "ps_core w config stg number =
     (case recover_client w config stg False of
        (evs, Inl e) \<Rightarrow> (evs, Inl e)
      | (evs, Inr None) \<Rightarrow> (evs, Inl AttributeError)
      | (evs, Inr (Some c)) \<Rightarrow>
          if eth_address c = JString placeholder_address
          then (evs @ [Echo guidance_message], Inl (SystemExit 0))
          else
            (case analysis_list_op w c of
               Inl e \<Rightarrow> (evs @ [CallAnalysisList], Inl e)
             | Inr (analyses, c') \<Rightarrow>
                 (evs @ [CallAnalysisList, save_client config c'],
                  Inr (slice_upto analyses (number + 1)))))"

definition ps_data :: "analysis list \<Rightarrow> ps_row list" where
  "ps_data analyses = map (\<lambda>a. (uuid a, status a, submitted_at a)) analyses"

text \<open>
  \<open>number\<close> is the value of \<open>--number\<close> after click has checked it against
  \<open>IntRange(min=1, max=100)\<close>. The event \<open>EchoTable\<close> carries the rows given to \<open>tabulate\<close>.
\<close>

definition ps :: "world \<Rightarrow> string \<Rightarrow> bool \<Rightarrow> int \<Rightarrow> event list \<times> (error + unit)" where
  "ps w config stg number =
     (case ps_core w config stg number of
        (evs, Inl e) \<Rightarrow> (evs, Inl e)
      | (evs, Inr analyses) \<Rightarrow> (evs @ [EchoTable (ps_data analyses)], Inr ()))"

subsection \<open>The aggregation loop of \<open>report\<close>\<close>

record issue =
  locations :: "string list"
  swc_title :: string
  severity :: string
  description_short :: string

type_synonym report_row = "int \<times> int \<times> string \<times> string \<times> string"

text \<open>
  The local variables \<open>filename\<close> and \<open>line, column\<close> of \<open>report\<close>; \<open>None\<close> while a variable
  has not been assigned. \<open>line\<close> and \<open>column\<close> are assigned together.
\<close>

type_synonym loop_vars = "string option \<times> (int \<times> int) option"

text \<open>\<open>if resp.source_list\<close>: the list is there and not empty.\<close>

fun list_truthy :: "'a list option \<Rightarrow> bool" where
  "list_truthy None = False"
| "list_truthy (Some xs) = (xs \<noteq> [])"

text \<open>
  The inner loop \<open>for offset, length, file_idx in source_locs\<close>: every element must unpack
  into exactly three fields.
\<close>

fun resolve_locations ::
  "filesystem \<Rightarrow> string list option \<Rightarrow> string list list \<Rightarrow> loop_vars
     \<Rightarrow> event list \<times> (error + loop_vars)" where
  "resolve_locations fs source_list [] vars = ([], Inr vars)"
| "resolve_locations fs source_list (loc # rest) vars =
     (case loc of
        [offset, len, file_idx] \<Rightarrow>
          if list_truthy source_list then
            (case py_int file_idx of
               None \<Rightarrow> ([], Inl ValueError)
             | Some i \<Rightarrow>
                 (case list_index (case source_list of Some xs \<Rightarrow> xs | None \<Rightarrow> []) i of
                    Inl e \<Rightarrow> ([], Inl e)
                  | Inr filename \<Rightarrow>
                      (case py_int offset of
                         None \<Rightarrow> ([], Inl ValueError)
                       | Some off \<Rightarrow>
                           (case get_source_location_by_offset fs filename off of
                              (evs, Inl e) \<Rightarrow> (evs, Inl e)
                            | (evs, Inr pos) \<Rightarrow>
                                (case resolve_locations fs source_list rest
                                        (Some filename, Some pos) of
                                   (evs', r) \<Rightarrow> (evs @ evs', r))))))
          else resolve_locations fs source_list rest (Some ''Unknown'', snd vars)
      | _ \<Rightarrow> ([], Inl ValueError))"

text \<open>\<open>file_to_issue[filename].append(row)\<close> on the \<open>defaultdict(list)\<close>, keys in insertion order.\<close>

fun dd_append :: "(string \<times> 'a list) list \<Rightarrow> string \<Rightarrow> 'a \<Rightarrow> (string \<times> 'a list) list" where
  "dd_append [] k v = [(k, [v])]"
| "dd_append ((k', vs) # rest) k v =
     (if k' = k then (k', vs @ [v]) # rest else (k', vs) # dd_append rest k v)"

text \<open>
  The outer loop \<open>for issue in resp.issues\<close>. The \<open>append\<close> stands after the inner loop, in
  the body of the outer one: it reads \<open>filename\<close>, \<open>line\<close> and \<open>column\<close> as the inner loop
  left them.
\<close>

fun aggregate_issues ::
  "filesystem \<Rightarrow> string list option \<Rightarrow> issue list \<Rightarrow> loop_vars
     \<Rightarrow> (string \<times> report_row list) list
     \<Rightarrow> event list \<times> (error + (string \<times> report_row list) list)" where
  "aggregate_issues fs source_list [] vars file_to_issue = ([], Inr file_to_issue)"
| "aggregate_issues fs source_list (iss # rest) vars file_to_issue =
     (case resolve_locations fs source_list (map split_colon (locations iss)) vars of
        (evs, Inl e) \<Rightarrow> (evs, Inl e)
      | (evs, Inr (fname, pos)) \<Rightarrow>
          (case fname of
             None \<Rightarrow> (evs, Inl (UnboundLocalError ''filename''))
           | Some filename \<Rightarrow>
               (case pos of
                  None \<Rightarrow> (evs, Inl (UnboundLocalError ''line''))
                | Some (line, column) \<Rightarrow>
                    (case aggregate_issues fs source_list rest (fname, pos)
                            (dd_append file_to_issue filename
                               (line, column, swc_title iss, severity iss, description_short iss)) of
                       (evs', r) \<Rightarrow> (evs @ evs', r)))))"

text \<open>The value of \<open>file_to_issue\<close> when the first loop of \<open>report\<close> ends.\<close>

definition report_file_to_issue ::
  "filesystem \<Rightarrow> string list option \<Rightarrow> issue list
     \<Rightarrow> event list \<times> (error + (string \<times> report_row list) list)" where
  "report_file_to_issue fs source_list issues =
     aggregate_issues fs source_list issues (None, None) []"

text \<open>The number of tuples held in \<open>file_to_issue\<close>, over all files.\<close>

definition row_count :: "(string \<times> 'a list) list \<Rightarrow> nat" where
  "row_count file_to_issue = sum_list (map (\<lambda>(k, vs). length vs) file_to_issue)"

section \<open>Properties\<close>

subsection \<open>Lines of a text\<close>

lemma concat_file_lines: "concat (file_lines s) = s"
  by (induction s) (auto split: list.splits)

lemma file_lines_nonempty: "l \<in> set (file_lines s) \<Longrightarrow> l \<noteq> []"
  by (induction s arbitrary: l) (auto split: list.splits if_splits)

lemma file_lines_Nil: "file_lines s = [] \<longleftrightarrow> s = []"
  by (cases s) (auto split: list.splits)

lemma cumulative_0: "cumulative ls 0 = 0"
  by (simp add: cumulative_def total_length_def)

lemma cumulative_Suc_Cons: "cumulative (l # ls) (Suc k) = int (length l) + cumulative ls k"
  by (simp add: cumulative_def total_length_def)

lemma cumulative_all: "length ls \<le> k \<Longrightarrow> cumulative ls k = total_length ls"
  by (simp add: cumulative_def)

lemma cumulative_mono: "j \<le> k \<Longrightarrow> cumulative ls j \<le> cumulative ls k"
proof (induction ls arbitrary: j k)
  case Nil then show ?case by (simp add: cumulative_def)
next
  case (Cons l ls)
  show ?case
  proof (cases j)
    case 0 then show ?thesis by (simp add: cumulative_def total_length_def)
  next
    case (Suc j')
    then obtain k' where "k = Suc k'" using Cons.prems by (cases k) auto
    with Suc Cons show ?thesis by (simp add: cumulative_Suc_Cons)
  qed
qed

lemma cumulative_step: "k < length ls \<Longrightarrow> cumulative ls (Suc k) = cumulative ls k + int (length (ls ! k))"
proof (induction ls arbitrary: k)
  case Nil then show ?case by simp
next
  case (Cons l ls)
  then show ?case by (cases k) (simp_all add: cumulative_Suc_Cons cumulative_0)
qed

lemma scan_lines_Some:
  "scan_lines ls off n acc = Some (line, col) \<Longrightarrow>
     \<exists>k. 0 < k \<and> k \<le> length ls \<and> line = n + int k \<and> col = acc + cumulative ls k - off
        \<and> off \<le> acc + cumulative ls k
        \<and> (\<forall>j. 0 < j \<and> j < k \<longrightarrow> acc + cumulative ls j < off)"
proof (induction ls arbitrary: n acc)
  case Nil then show ?case by simp
next
  case (Cons l ls)
  show ?case
  proof (cases "off \<le> acc + int (length l)")
    case True
    with Cons.prems have "line = n + 1" "col = acc + int (length l) - off"
      by (simp_all add: Let_def)
    with True show ?thesis
      by (intro exI[of _ 1]) (simp add: cumulative_Suc_Cons cumulative_0)
  next
    case False
    with Cons.prems have "scan_lines ls off (n + 1) (acc + int (length l)) = Some (line, col)"
      by (simp add: Let_def)
    from Cons.IH[OF this] obtain k where k: "0 < k" "k \<le> length ls" "line = n + 1 + int k"
      "col = acc + int (length l) + cumulative ls k - off"
      "off \<le> acc + int (length l) + cumulative ls k"
      "\<forall>j. 0 < j \<and> j < k \<longrightarrow> acc + int (length l) + cumulative ls j < off"
      by auto
    have "\<forall>j. 0 < j \<and> j < Suc k \<longrightarrow> acc + cumulative (l # ls) j < off"
    proof (intro allI impI)
      fix j assume j: "0 < j \<and> j < Suc k"
      then obtain j' where j': "j = Suc j'" by (cases j) auto
      show "acc + cumulative (l # ls) j < off"
      proof (cases j')
        case 0 with j' False show ?thesis by (simp add: cumulative_Suc_Cons cumulative_0)
      next
        case (Suc m)
        with j j' k(6) have "acc + int (length l) + cumulative ls j' < off" by simp
        with j' show ?thesis by (simp add: cumulative_Suc_Cons)
      qed
    qed
    with k show ?thesis
      by (intro exI[of _ "Suc k"]) (simp add: cumulative_Suc_Cons)
  qed
qed

lemma scan_lines_None_iff:
  "scan_lines ls off n acc = None \<longleftrightarrow> (ls = [] \<or> acc + total_length ls < off)"
proof (induction ls arbitrary: n acc)
  case Nil then show ?case by simp
next
  case (Cons l ls)
  have nn: "0 \<le> total_length ls" by (simp add: total_length_def)
  have tl: "total_length (l # ls) = int (length l) + total_length ls" by (simp add: total_length_def)
  show ?case using Cons.IH[of "n+1" "acc + int (length l)"] nn
    by (auto simp add: Let_def tl total_length_def)
qed

lemma total_length_file_lines: "total_length (file_lines s) = int (length s)"
  by (simp add: total_length_def concat_file_lines)

lemma scan_lines_exhausted:
  "scan_lines (file_lines text) off 0 0 = None \<longleftrightarrow> (text = [] \<or> int (length text) < off)"
  by (simp add: scan_lines_None_iff file_lines_Nil total_length_file_lines)

subsection \<open>Decimal rendering\<close>

text \<open>
  The decimal text of an integer reads back, through \<open>int(...)\<close>, as that integer: two
  offsets never print alike.
\<close>

lemma digit_val_digit_char: "d < 10 \<Longrightarrow> digit_val (digit_char d) = Some d"
proof -
  assume "d < 10"
  then have "d \<in> {0,1,2,3,4,5,6,7,8,9}" by auto
  then show ?thesis
    by (auto simp add: digit_val_def digit_char_def)
qed

lemma digit_char_not_space: "d < 10 \<Longrightarrow> \<not> is_space (digit_char d)"
proof -
  assume "d < 10"
  then have "d \<in> {0,1,2,3,4,5,6,7,8,9}" by auto
  then show ?thesis
    by (auto simp add: is_space_def digit_char_def)
qed

lemma digit_char_not_sign: "d < 10 \<Longrightarrow> digit_char d \<noteq> CHR ''-'' \<and> digit_char d \<noteq> CHR ''+''"
proof -
  assume "d < 10"
  then have "d \<in> {0,1,2,3,4,5,6,7,8,9}" by auto
  then show ?thesis
    by (auto simp add: digit_char_def)
qed

lemma str_nat_shape: "\<exists>d cs. d < 10 \<and> str_nat n = digit_char d # cs"
proof (induction n rule: str_nat.induct)
  case (1 n)
  show ?case
  proof (cases "n < 10")
    case True
    then show ?thesis by (subst str_nat.simps) auto
  next
    case False
    with 1 obtain d cs where "d < 10" "str_nat (n div 10) = digit_char d # cs" by auto
    with False show ?thesis by (subst str_nat.simps) auto
  qed
qed

lemma str_nat_last: "\<exists>d cs. d < 10 \<and> str_nat n = cs @ [digit_char d]"
proof (cases "n < 10")
  case True
  then show ?thesis by (subst str_nat.simps) auto
next
  case False
  have "n mod 10 < 10 \<and> str_nat n = str_nat (n div 10) @ [digit_char (n mod 10)]"
    using False by (subst str_nat.simps) simp
  then show ?thesis by blast
qed

lemma parse_digits_str_nat:
  "parse_digits (str_nat n @ ys) b acc
     = parse_digits ys True (acc * 10 ^ length (str_nat n) + n)"
proof (induction n arbitrary: ys b acc rule: str_nat.induct)
  case (1 n)
  show ?case
  proof (cases "n < 10")
    case True
    then show ?thesis
      by (subst (1 2) str_nat.simps) (simp add: digit_val_digit_char)
  next
    case False
    have m: "n mod 10 < 10" by simp
    have "parse_digits (str_nat n @ ys) b acc
            = parse_digits (str_nat (n div 10) @ (digit_char (n mod 10) # ys)) b acc"
      using False by (subst str_nat.simps) simp
    also have "\<dots> = parse_digits (digit_char (n mod 10) # ys) True
                        (acc * 10 ^ length (str_nat (n div 10)) + n div 10)"
      using 1 False by simp
    also have "\<dots> = parse_digits ys True
                        ((acc * 10 ^ length (str_nat (n div 10)) + n div 10) * 10 + n mod 10)"
      by (simp add: digit_val_digit_char [OF m])
    also have "(acc * 10 ^ length (str_nat (n div 10)) + n div 10) * 10 + n mod 10
                 = acc * 10 ^ length (str_nat n) + n"
      using False by (subst (2) str_nat.simps) (simp add: algebra_simps)
    finally show ?thesis .
  qed
qed

lemma parse_digits_str_nat_0: "parse_digits (str_nat n) False 0 = Some n"
  using parse_digits_str_nat [of n "[]" False 0] by simp

lemma strip_id: "s \<noteq> [] \<Longrightarrow> \<not> is_space (hd s) \<Longrightarrow> \<not> is_space (last s) \<Longrightarrow> strip s = s"
proof -
  assume a: "s \<noteq> []" "\<not> is_space (hd s)" "\<not> is_space (last s)"
  then have "dropWhile is_space s = s" by (cases s) auto
  moreover have "dropWhile is_space (rev s) = rev s"
    using a by (cases "rev s") (auto simp add: last_rev [symmetric] simp del: last_rev)
  ultimately show ?thesis by (simp add: strip_def)
qed

lemma py_int_str_int: "py_int (str_int i) = Some i"
proof -
  obtain d cs where d: "d < 10" "str_nat (nat \<bar>i\<bar>) = digit_char d # cs"
    using str_nat_shape by blast
  obtain e bs where e: "e < 10" "str_nat (nat \<bar>i\<bar>) = bs @ [digit_char e]"
    using str_nat_last by blast
  show ?thesis
  proof (cases "i < 0")
    case True
    then have s: "str_int i = CHR ''-'' # str_nat (nat \<bar>i\<bar>)" by (simp add: str_int_def)
    have "\<not> is_space (hd (str_int i))" using s by (simp add: is_space_def)
    moreover have "last (str_int i) = digit_char e" using s e(2) by simp
    moreover have "str_int i \<noteq> []" using s by simp
    ultimately have "strip (str_int i) = str_int i"
      using e(1) digit_char_not_space by (intro strip_id) simp_all
    with s True show ?thesis
      by (simp add: py_int_def parse_digits_str_nat_0)
  next
    case False
    then have s: "str_int i = str_nat (nat \<bar>i\<bar>)" by (simp add: str_int_def)
    have "hd (str_int i) = digit_char d" using s d(2) by simp
    moreover have "last (str_int i) = digit_char e" using s e(2) by simp
    moreover have "str_int i \<noteq> []" using s d(2) by simp
    ultimately have "strip (str_int i) = str_int i"
      using d(1) e(1) digit_char_not_space by (intro strip_id) simp_all
    moreover have "parse_digits (digit_char d # cs) False 0 = Some (nat \<bar>i\<bar>)"
      using parse_digits_str_nat_0 [of "nat \<bar>i\<bar>"] d by simp
    ultimately show ?thesis
      using s d False digit_char_not_sign [OF d(1)] by (simp add: py_int_def)
  qed
qed

lemma str_int_inj: "str_int a = str_int b \<Longrightarrow> a = b"
  by (metis py_int_str_int option.inject)

subsection \<open>The offset-to-position resolver\<close>

lemma universal_newlines_id: "carriage_return \<notin> set bs \<Longrightarrow> universal_newlines bs = bs"
  by (induction bs rule: universal_newlines.induct) auto

text \<open>
  On the text that Python reads: a non-empty text and an offset up to its number of
  characters give a position, and the position accounts for the offset.
\<close>

lemma resolve_within_text:
  assumes "open_file fs filename = Some text" "text \<noteq> []"
    and "off \<le> int (length text)"
  shows "\<exists>line col. get_source_location_by_offset fs filename off = ([], Inr (line, col))
       \<and> 1 \<le> line \<and> line \<le> int (length (file_lines text))
       \<and> cumulative (file_lines text) (nat line - 1)
           + (int (length (file_lines text ! (nat line - 1))) - col) = off
       \<and> off \<le> cumulative (file_lines text) (nat line)
       \<and> (\<forall>j. 0 < j \<and> j < nat line \<longrightarrow> cumulative (file_lines text) j < off)"
proof -
  let ?ls = "file_lines text"
  have "scan_lines ?ls off 0 0 \<noteq> None"
    using assms(2,3) by (simp add: scan_lines_exhausted)
  then obtain line col where sc: "scan_lines ?ls off 0 0 = Some (line, col)"
    by (cases "scan_lines ?ls off 0 0") auto
  from scan_lines_Some[OF sc] obtain k where k: "0 < k" "k \<le> length ?ls" "line = int k"
    "col = cumulative ?ls k - off" "off \<le> cumulative ?ls k"
    "\<forall>j. 0 < j \<and> j < k \<longrightarrow> cumulative ?ls j < off"
    by auto
  from k(1) obtain m where m: "k = Suc m" by (cases k) auto
  with k(2) have "m < length ?ls" by simp
  from cumulative_step[OF this] m
  have step: "cumulative ?ls k = cumulative ?ls m + int (length (?ls ! m))" by simp
  have res: "get_source_location_by_offset fs filename off = ([], Inr (line, col))"
    using assms(1) sc by (simp add: get_source_location_by_offset_def)
  have nl: "nat line = Suc m" using k(3) m by simp
  have "get_source_location_by_offset fs filename off = ([], Inr (line, col))
       \<and> 1 \<le> line \<and> line \<le> int (length ?ls)
       \<and> cumulative ?ls (nat line - 1) + (int (length (?ls ! (nat line - 1))) - col) = off
       \<and> off \<le> cumulative ?ls (nat line)
       \<and> (\<forall>j. 0 < j \<and> j < nat line \<longrightarrow> cumulative ?ls j < off)"
  proof (intro conjI)
    show "get_source_location_by_offset fs filename off = ([], Inr (line, col))" by (rule res)
    show "1 \<le> line" using k(1,3) by simp
    show "line \<le> int (length ?ls)" using k(2,3) by simp
    show "cumulative ?ls (nat line - 1) + (int (length (?ls ! (nat line - 1))) - col) = off"
      unfolding nl using k(4) step m by simp
    show "off \<le> cumulative ?ls (nat line)" unfolding nl using k(5) m by simp
    show "\<forall>j. 0 < j \<and> j < nat line \<longrightarrow> cumulative ?ls j < off"
      unfolding nl using k(6) m by simp
  qed
  then show ?thesis by blast
qed

text \<open>
  Claim C1, as the specification states it, promises a position for every offset between
  0 and the number of bytes of the file. It fails in two ways. The empty file has 0 bytes,
  yet at offset 0 the loop body never runs and the resolver logs the error and exits. And
  the loop counts the characters that Python reads, not the bytes on disk: the file
  \<open>ab\r\ncd\r\n\<close> has 8 bytes and is read as the 6 characters \<open>ab\ncd\n\<close>, so at offset
  7 the resolver logs the error and exits as well.
\<close>

theorem resolve_within_file_counterexample:
  "(0::int) \<le> int (length ([] :: string))
   \<and> get_source_location_by_offset [(''empty.sol'', universal_newlines [])] ''empty.sol'' 0
       = ([LogError ''Error finding the source location in empty.sol for offset 0''],
          Inl (SystemExit 1))
   \<and> list_all is_ascii (''ab'' @ [carriage_return, newline] @ ''cd'' @ [carriage_return, newline])
   \<and> (7::int) \<le> int (length (''ab'' @ [carriage_return, newline]
                                    @ ''cd'' @ [carriage_return, newline]))
   \<and> get_source_location_by_offset
         [(''w.sol'', universal_newlines (''ab'' @ [carriage_return, newline]
                                           @ ''cd'' @ [carriage_return, newline]))] ''w.sol'' 7
       = ([LogError ''Error finding the source location in w.sol for offset 7''],
          Inl (SystemExit 1))"
  by (simp add: get_source_location_by_offset_def open_file_def is_ascii_def
      carriage_return_def newline_def location_error_message_def str_int_def str_nat.simps
      digit_char_def)

text \<open>
  Claim C1, amended: for every non-empty file whose bytes are ASCII and hold no carriage
  return, so that the text Python reads is the bytes on disk, and every offset \<open>off\<close> with
  \<open>0 \<le> off \<le> number of bytes\<close>, the resolver returns \<open>(line, col)\<close> where \<open>line\<close> is a
  line of the file, the byte lengths of the lines before \<open>line\<close> plus (byte length of
  \<open>line\<close> minus \<open>col\<close>) is \<open>off\<close>, and \<open>line\<close> is the smallest line number, counted from
  1, whose cumulative byte count reaches \<open>off\<close>.
\<close>

theorem resolve_within_file:
  assumes "list_all is_ascii bytes" "carriage_return \<notin> set bytes"
    and "open_file fs filename = Some (universal_newlines bytes)"
    and "bytes \<noteq> []" "0 \<le> off" "off \<le> int (length bytes)"
  shows "\<exists>line col. get_source_location_by_offset fs filename off = ([], Inr (line, col))
       \<and> 1 \<le> line \<and> line \<le> int (length (file_lines bytes))
       \<and> cumulative (file_lines bytes) (nat line - 1)
           + (int (length (file_lines bytes ! (nat line - 1))) - col) = off
       \<and> off \<le> cumulative (file_lines bytes) (nat line)
       \<and> (\<forall>j. 0 < j \<and> j < nat line \<longrightarrow> cumulative (file_lines bytes) j < off)"
proof -
  from assms(2) have "universal_newlines bytes = bytes"
    by (rule universal_newlines_id)
  with assms(3) have "open_file fs filename = Some bytes" by simp
  from resolve_within_text [OF this assms(4) assms(6)] show ?thesis .
qed

theorem resolve_within_file_witness:
  "\<exists>line col.
     get_source_location_by_offset
       [(''a.sol'', universal_newlines (''ab'' @ [newline] @ ''cde''))] ''a.sol'' 4
       = ([], Inr (line, col))
     \<and> 1 \<le> line \<and> line \<le> int (length (file_lines (''ab'' @ [newline] @ ''cde'')))
     \<and> cumulative (file_lines (''ab'' @ [newline] @ ''cde'')) (nat line - 1)
         + (int (length (file_lines (''ab'' @ [newline] @ ''cde'') ! (nat line - 1))) - col) = 4
     \<and> 4 \<le> cumulative (file_lines (''ab'' @ [newline] @ ''cde'')) (nat line)
     \<and> (\<forall>j. 0 < j \<and> j < nat line
            \<longrightarrow> cumulative (file_lines (''ab'' @ [newline] @ ''cde'')) j < 4)"
proof -
  have h1: "list_all is_ascii (''ab'' @ [newline] @ ''cde'')"
    by (simp add: is_ascii_def newline_def)
  have h2: "carriage_return \<notin> set (''ab'' @ [newline] @ ''cde'')"
    by (simp add: carriage_return_def newline_def)
  have h3: "open_file [(''a.sol'', universal_newlines (''ab'' @ [newline] @ ''cde''))] ''a.sol''
              = Some (universal_newlines (''ab'' @ [newline] @ ''cde''))"
    by (simp add: open_file_def)
  have h4: "''ab'' @ [newline] @ ''cde'' \<noteq> []" by simp
  have h5: "(0::int) \<le> 4" by simp
  have h6: "(4::int) \<le> int (length (''ab'' @ [newline] @ ''cde''))" by simp
  show ?thesis by (rule resolve_within_file [OF h1 h2 h3 h4 h5 h6])
qed

text \<open>
  Claim C2: on the text \<open>abc\ndef\n\<close> the resolver returns \<open>(1, 0)\<close> at offset 4, \<open>(2, 3)\<close>
  at offset 5 and \<open>(2, 0)\<close> at offset 8; at offset 9 it returns no position but logs the
  error and exits.
\<close>

theorem resolve_scenario:
  "get_source_location_by_offset [(''f.sol'', ''abc'' @ [newline] @ ''def'' @ [newline])] ''f.sol'' 4
     = ([], Inr (1, 0))
   \<and> get_source_location_by_offset [(''f.sol'', ''abc'' @ [newline] @ ''def'' @ [newline])] ''f.sol'' 5
     = ([], Inr (2, 3))
   \<and> get_source_location_by_offset [(''f.sol'', ''abc'' @ [newline] @ ''def'' @ [newline])] ''f.sol'' 8
     = ([], Inr (2, 0))
   \<and> get_source_location_by_offset [(''f.sol'', ''abc'' @ [newline] @ ''def'' @ [newline])] ''f.sol'' 9
     = ([LogError ''Error finding the source location in f.sol for offset 9''],
        Inl (SystemExit 1))"
  by (simp add: get_source_location_by_offset_def open_file_def newline_def
      location_error_message_def str_int_def str_nat.simps digit_char_def)

text \<open>
  Claim C3, as stated, gives column 0 at offset 0. The column is the distance from the
  offset to the end of the line, so on the one-line text \<open>abc\n\<close> offset 0 has column 4.
\<close>

theorem resolve_offset_zero_counterexample:
  "hd (file_lines (''abc'' @ [newline])) \<noteq> []
   \<and> get_source_location_by_offset [(''a.sol'', ''abc'' @ [newline])] ''a.sol'' 0
       = ([], Inr (1, 4))"
  by (simp add: get_source_location_by_offset_def open_file_def newline_def)

text \<open>
  Claim C3, amended: for every file whose first line is non-empty, the resolver at offset 0
  returns line 1 and, as column, the length of that first line (terminator included), which
  is at least 1; the column is 0 only for an offset equal to the cumulative length through
  the returned line.
\<close>

theorem resolve_offset_zero:
  assumes "open_file fs filename = Some text" "file_lines text \<noteq> []"
    and "hd (file_lines text) \<noteq> []"
  shows "get_source_location_by_offset fs filename 0
           = ([], Inr (1, int (length (hd (file_lines text)))))
         \<and> 1 \<le> int (length (hd (file_lines text)))
         \<and> (\<forall>off evs line.
               get_source_location_by_offset fs filename off = (evs, Inr (line, 0))
               \<longrightarrow> off = cumulative (file_lines text) (nat line))"
proof -
  from assms(2) obtain l ls where ls: "file_lines text = l # ls"
    by (cases "file_lines text") auto
  with assms(3) have "l \<noteq> []" by simp
  then have "1 \<le> int (length l)" by (cases l) auto
  with ls assms(1) have at_zero:
    "get_source_location_by_offset fs filename 0
       = ([], Inr (1, int (length (hd (file_lines text)))))
     \<and> 1 \<le> int (length (hd (file_lines text)))"
    by (simp add: get_source_location_by_offset_def)
  have column_zero: "\<forall>off evs line.
      get_source_location_by_offset fs filename off = (evs, Inr (line, 0))
      \<longrightarrow> off = cumulative (file_lines text) (nat line)"
  proof (intro allI impI)
    fix off evs line
    assume r: "get_source_location_by_offset fs filename off = (evs, Inr (line, 0))"
    with assms(1) have sc: "scan_lines (file_lines text) off 0 0 = Some (line, 0)"
      by (auto simp add: get_source_location_by_offset_def split: option.splits)
    from scan_lines_Some [OF sc] obtain k where
      "line = int k" "0 = cumulative (file_lines text) k - off"
      by auto
    then show "off = cumulative (file_lines text) (nat line)" by simp
  qed
  from at_zero column_zero show ?thesis by blast
qed

theorem resolve_offset_zero_witness:
  "get_source_location_by_offset [(''b.sol'', ''xy'' @ [newline] @ ''z'')] ''b.sol'' 0
     = ([], Inr (1, int (length (hd (file_lines (''xy'' @ [newline] @ ''z''))))))
   \<and> 1 \<le> int (length (hd (file_lines (''xy'' @ [newline] @ ''z''))))
   \<and> get_source_location_by_offset [(''b.sol'', ''xy'' @ [newline] @ ''z'')] ''b.sol'' 3
     = ([], Inr (1, 0))
   \<and> (3::int) = cumulative (file_lines (''xy'' @ [newline] @ ''z'')) (nat 1)"
proof -
  have h1: "open_file [(''b.sol'', ''xy'' @ [newline] @ ''z'')] ''b.sol''
              = Some (''xy'' @ [newline] @ ''z'')"
    by (simp add: open_file_def)
  have h2: "file_lines (''xy'' @ [newline] @ ''z'') \<noteq> []" by (simp add: newline_def)
  have h3: "hd (file_lines (''xy'' @ [newline] @ ''z'')) \<noteq> []" by (simp add: newline_def)
  have h4: "get_source_location_by_offset [(''b.sol'', ''xy'' @ [newline] @ ''z'')] ''b.sol'' 3
              = ([], Inr (1, 0))"
    by (simp add: get_source_location_by_offset_def open_file_def newline_def)
  note main = resolve_offset_zero [OF h1 h2 h3]
  from main have a:
    "get_source_location_by_offset [(''b.sol'', ''xy'' @ [newline] @ ''z'')] ''b.sol'' 0
       = ([], Inr (1, int (length (hd (file_lines (''xy'' @ [newline] @ ''z''))))))
     \<and> 1 \<le> int (length (hd (file_lines (''xy'' @ [newline] @ ''z''))))"
    by blast
  from main h4 have b: "(3::int) = cumulative (file_lines (''xy'' @ [newline] @ ''z'')) (nat 1)"
    by blast
  from a h4 b show ?thesis by blast
qed

text \<open>
  Claim C4: for every file and every offset greater than the size of the file the resolver
  returns no position: it logs the error message, which carries the file name and the
  decimal text of the offset (a text that reads back as the offset), and exits with
  status 1.
\<close>

theorem resolve_beyond_end:
  assumes "open_file fs filename = Some text" "int (length text) < off"
  shows "get_source_location_by_offset fs filename off
           = ([LogError (''Error finding the source location in '' @ filename
                           @ '' for offset '' @ str_int off)],
              Inl (SystemExit 1))
         \<and> py_int (str_int off) = Some off"
proof -
  have "scan_lines (file_lines text) off 0 0 = None"
    using assms(2) by (simp add: scan_lines_exhausted)
  with assms(1) show ?thesis
    by (simp add: get_source_location_by_offset_def location_error_message_def
        py_int_str_int)
qed

theorem resolve_beyond_end_witness:
  "get_source_location_by_offset [(''c.sol'', ''pragma'' @ [newline])] ''c.sol'' 12
     = ([LogError ''Error finding the source location in c.sol for offset 12''],
        Inl (SystemExit 1))"
proof -
  have h1: "open_file [(''c.sol'', ''pragma'' @ [newline])] ''c.sol'' = Some (''pragma'' @ [newline])"
    by (simp add: open_file_def)
  have h2: "int (length (''pragma'' @ [newline])) < 12" by simp
  show ?thesis
    using resolve_beyond_end [OF h1 h2]
    by (simp add: str_int_def str_nat.simps digit_char_def)
qed

text \<open>
  Claim C5: on an empty file the resolver fails for every offset, offset 0 and every
  offset from 1 on alike: the loop body never runs.
\<close>

theorem resolve_empty_file:
  assumes "open_file fs filename = Some []"
  shows "get_source_location_by_offset fs filename off
           = ([LogError (location_error_message filename off)], Inl (SystemExit 1))"
  using assms by (simp add: get_source_location_by_offset_def)

theorem resolve_empty_file_witness:
  "get_source_location_by_offset [(''e.sol'', [])] ''e.sol'' 0
     = ([LogError (location_error_message ''e.sol'' 0)], Inl (SystemExit 1))
   \<and> get_source_location_by_offset [(''e.sol'', [])] ''e.sol'' 1
     = ([LogError (location_error_message ''e.sol'' 1)], Inl (SystemExit 1))"
proof -
  have h: "open_file [(''e.sol'', [])] ''e.sol'' = Some []"
    by (simp add: open_file_def)
  show ?thesis
    using resolve_empty_file [OF h, of 0] resolve_empty_file [OF h, of 1] by simp
qed

text \<open>
  Claim C10: whenever the resolver returns a position for an offset of at least 1, the line
  is between 1 and the number of lines of the file, and the column is at least 0 and
  smaller than the length of that line.
\<close>

theorem resolve_position_bounds:
  assumes "open_file fs filename = Some text" "1 \<le> off"
    and "get_source_location_by_offset fs filename off = (evs, Inr (line, col))"
  shows "1 \<le> line \<and> line \<le> int (length (file_lines text))
         \<and> 0 \<le> col \<and> col < int (length (file_lines text ! (nat line - 1)))"
proof -
  let ?ls = "file_lines text"
  from assms(1,3) have sc: "scan_lines ?ls off 0 0 = Some (line, col)"
    by (auto simp add: get_source_location_by_offset_def split: option.splits)
  from scan_lines_Some[OF sc] obtain k where k: "0 < k" "k \<le> length ?ls" "line = int k"
    "col = cumulative ?ls k - off" "off \<le> cumulative ?ls k"
    "\<forall>j. 0 < j \<and> j < k \<longrightarrow> cumulative ?ls j < off"
    by auto
  from k(1) obtain m where m: "k = Suc m" by (cases k) auto
  with k(2) have "m < length ?ls" by simp
  from cumulative_step[OF this] m
  have step: "cumulative ?ls k = cumulative ?ls m + int (length (?ls ! m))" by simp
  have before: "cumulative ?ls m < off"
  proof (cases m)
    case 0
    with assms(2) show ?thesis by (simp add: cumulative_0)
  next
    case (Suc m')
    with k(6) m show ?thesis by simp
  qed
  have nl: "nat line - 1 = m" using k(3) m by simp
  show ?thesis
    unfolding nl using k(1,2,3,4,5) step before by simp
qed

theorem resolve_position_bounds_witness:
  "(1::int) \<le> 2 \<and> (2::int) \<le> int (length (file_lines (''abc'' @ [newline] @ ''def'' @ [newline])))
   \<and> (0::int) \<le> 3
   \<and> (3::int) < int (length (file_lines (''abc'' @ [newline] @ ''def'' @ [newline]) ! (nat 2 - 1)))"
proof -
  have h1: "open_file [(''d.sol'', ''abc'' @ [newline] @ ''def'' @ [newline])] ''d.sol''
              = Some (''abc'' @ [newline] @ ''def'' @ [newline])"
    by (simp add: open_file_def)
  have h2: "(1::int) \<le> 5" by simp
  have h3: "get_source_location_by_offset [(''d.sol'', ''abc'' @ [newline] @ ''def'' @ [newline])]
              ''d.sol'' 5 = ([], Inr (2, 3))"
    by (simp add: get_source_location_by_offset_def open_file_def newline_def)
  show ?thesis by (rule resolve_position_bounds [OF h1 h2 h3])
qed

subsection \<open>Report aggregation\<close>

text \<open>
  The \<open>append\<close> runs once in each pass of the outer loop: when the loop ends without an
  exception, \<open>file_to_issue\<close> holds one tuple for each issue, whatever the number of its
  locations.
\<close>

lemma dd_append_row_count: "row_count (dd_append m k v) = Suc (row_count m)"
  by (induction m k v rule: dd_append.induct) (auto simp add: row_count_def)

lemma aggregate_issues_row_count:
  "aggregate_issues fs sl issues vars m = (evs, Inr m')
     \<Longrightarrow> row_count m' = row_count m + length issues"
proof (induction issues arbitrary: vars m evs)
  case Nil then show ?case by simp
next
  case (Cons iss issues)
  then show ?case
    by (auto simp add: dd_append_row_count split: prod.splits sum.splits option.splits)
qed

lemma report_one_tuple_per_issue:
  "report_file_to_issue fs sl issues = (evs, Inr m) \<Longrightarrow> row_count m = length issues"
  by (auto simp add: report_file_to_issue_def row_count_def dest: aggregate_issues_row_count)

text \<open>
  Claim C6 says that an issue with \<open>k\<close> locations contributes \<open>k\<close> tuples, one for each
  location. On an issue with the two locations \<open>4:1:0\<close> and \<open>5:1:0\<close> in the file
  \<open>abc\ndef\n\<close> the loop resolves both, to \<open>(1, 0)\<close> and to \<open>(2, 3)\<close>, but records one
  tuple only, that of the last location.
\<close>

theorem report_two_locations_one_tuple:
  "report_file_to_issue [(''a.sol'', ''abc'' @ [newline] @ ''def'' @ [newline])] (Some [''a.sol''])
     [\<lparr>locations = [''4:1:0'', ''5:1:0''], swc_title = ''Reentrancy'', severity = ''High'',
       description_short = ''External call''\<rparr>]
   = ([], Inr [(''a.sol'', [(2, 3, ''Reentrancy'', ''High'', ''External call'')])])"
  by (simp add: report_file_to_issue_def get_source_location_by_offset_def open_file_def
      newline_def py_int_def strip_def is_space_def digit_val_def list_index_def)

subsection \<open>The credential file\<close>

text \<open>
  For a dict the check behaves as documented: a missing key gives the message that names the
  required keys and exit status 1, and with tokens required an empty \<open>access\<close> or \<open>refresh\<close>
  gives the second message and exit status 1.
\<close>

lemma all_keys_in_object:
  "all_keys_in (JObject kvs) ks = Inr (set ks \<subseteq> fst ` set kvs)"
  by (induction ks) auto

lemma parse_config_missing_key:
  assumes "k \<in> set CONFIG_KEYS" "k \<notin> fst ` set kvs"
  shows "parse_config config_path (Inr (JObject kvs)) tokens_required
           = ([Echo (missing_keys_message config_path)], Inl (SystemExit 1))"
  using assms by (auto simp add: parse_config_def all_keys_in_object)

lemma parse_config_empty_token:
  assumes "set CONFIG_KEYS \<subseteq> fst ` set kvs"
    and "map_of kvs ''access'' = Some a" "map_of kvs ''refresh'' = Some r"
    and "\<not> truthy a \<or> \<not> truthy r"
  shows "parse_config config_path (Inr (JObject kvs)) True
           = ([Echo (missing_tokens_message config_path)], Inl (SystemExit 1))"
  using assms by (auto simp add: parse_config_def all_keys_in_object tokens_present_def)

text \<open>
  Claim C7 says that every credential file that parses as JSON and lacks a required key makes
  \<open>parse_config\<close> print the message naming the required keys and exit with status 1. The
  membership test runs before the test \<open>type(config) == dict\<close>: when the file holds a
  number or \<open>null\<close>, it raises \<open>TypeError\<close>, nothing is printed and \<open>sys.exit(1)\<close> is not
  reached.
\<close>

theorem parse_config_number_type_error:
  "parse_config ''/tmp/.pythx.json'' (Inr (JInt 5)) True = ([], Inl TypeError)
   \<and> parse_config ''/tmp/.pythx.json'' (Inr JNull) False = ([], Inl TypeError)"
  by (simp add: parse_config_def CONFIG_KEYS_def)

subsection \<open>Listing analyses\<close>

lemma parse_config_events:
  "parse_config p l t = (evs, r) \<Longrightarrow> CallAnalysisList \<notin> set evs"
  by (auto simp add: parse_config_def split: sum.splits if_splits)

lemma env_or_prompt_events:
  "env_or_prompt v t a = (evs, x) \<Longrightarrow> CallAnalysisList \<notin> set evs"
  by (auto simp add: env_or_prompt_def split: option.splits if_splits)

lemma recover_client_events:
  "recover_client w p s x = (evs, r) \<Longrightarrow> CallAnalysisList \<notin> set evs"
  by (auto simp add: recover_client_def save_client_def update_config_def Let_def
      dest: parse_config_events env_or_prompt_events
      split: prod.splits sum.splits if_splits)

text \<open>
  Claim C8: when the recovered client carries the placeholder address, \<open>ps_core\<close>, and with
  it \<open>ps\<close>, prints the guidance message and exits with status 0; the remote
  \<open>analysis_list\<close> operation is not called.
\<close>

theorem ps_core_placeholder:
  assumes "recover_client w config stg False = (evs, Inr (Some c))"
    and "eth_address c = JString placeholder_address"
  shows "ps_core w config stg number = (evs @ [Echo guidance_message], Inl (SystemExit 0))
         \<and> ps w config stg number = (evs @ [Echo guidance_message], Inl (SystemExit 0))
         \<and> CallAnalysisList \<notin> set (fst (ps_core w config stg number))"
proof -
  have core: "ps_core w config stg number = (evs @ [Echo guidance_message], Inl (SystemExit 0))"
    using assms by (simp add: ps_core_def)
  have "CallAnalysisList \<notin> set evs"
    using assms(1) by (rule recover_client_events)
  with core show ?thesis by (simp add: ps_def)
qed

theorem ps_core_placeholder_witness:
  "ps_core \<lparr>isfile = True,
            loaded = Inr (JObject [(''access'', JString ''tok''), (''refresh'', JString ''ref''),
                                   (''username'', JString placeholder_address),
                                   (''password'', JString ''trial'')]),
            env_username = None, env_password = None,
            prompt_address = [], prompt_password = [],
            login_op = Inr, analysis_list_op = Inr \<circ> Pair []\<rparr> ''cfg.json'' False 20
     = ([Echo guidance_message], Inl (SystemExit 0))
   \<and> ps \<lparr>isfile = True,
            loaded = Inr (JObject [(''access'', JString ''tok''), (''refresh'', JString ''ref''),
                                   (''username'', JString placeholder_address),
                                   (''password'', JString ''trial'')]),
            env_username = None, env_password = None,
            prompt_address = [], prompt_password = [],
            login_op = Inr, analysis_list_op = Inr \<circ> Pair []\<rparr> ''cfg.json'' False 20
     = ([Echo guidance_message], Inl (SystemExit 0))
   \<and> CallAnalysisList \<notin> set (fst (ps_core \<lparr>isfile = True,
            loaded = Inr (JObject [(''access'', JString ''tok''), (''refresh'', JString ''ref''),
                                   (''username'', JString placeholder_address),
                                   (''password'', JString ''trial'')]),
            env_username = None, env_password = None,
            prompt_address = [], prompt_password = [],
            login_op = Inr, analysis_list_op = Inr \<circ> Pair []\<rparr> ''cfg.json'' False 20))"
proof -
  let ?w = "\<lparr>isfile = True,
            loaded = Inr (JObject [(''access'', JString ''tok''), (''refresh'', JString ''ref''),
                                   (''username'', JString placeholder_address),
                                   (''password'', JString ''trial'')]),
            env_username = None, env_password = None,
            prompt_address = [], prompt_password = [],
            login_op = Inr, analysis_list_op = Inr \<circ> Pair []\<rparr>"
  let ?c = "\<lparr>eth_address = JString placeholder_address, password = JString ''trial'',
             access_token = JString ''tok'', refresh_token = JString ''ref'', staging = False\<rparr>"
  have h1: "recover_client ?w ''cfg.json'' False False = ([], Inr (Some ?c))"
    by (simp add: recover_client_def parse_config_def CONFIG_KEYS_def tokens_present_def)
  have h2: "eth_address ?c = JString placeholder_address" by simp
  show ?thesis
    using ps_core_placeholder [OF h1 h2, of 20] by simp
qed

lemma slice_upto_take:
  "0 \<le> k \<Longrightarrow> slice_upto xs k = take (nat k) xs"
  by (simp add: slice_upto_def)

text \<open>
  Claim C9: when the service returns more than \<open>N + 1\<close> analyses, \<open>ps\<close> with
  \<open>--number N\<close> keeps the first \<open>N + 1\<close> of them, indices 0 to \<open>N\<close>, and prints a table
  of \<open>N + 1\<close> rows.
\<close>

theorem ps_truncates:
  assumes "recover_client w config stg False = (evs, Inr (Some c))"
    and "eth_address c \<noteq> JString placeholder_address"
    and "analysis_list_op w c = Inr (analyses, c')"
    and "1 \<le> N" "N \<le> 100"
    and "N + 1 < int (length analyses)"
  shows "ps_core w config stg N
           = (evs @ [CallAnalysisList, save_client config c'], Inr (take (nat (N + 1)) analyses))
         \<and> ps w config stg N
           = (evs @ [CallAnalysisList, save_client config c',
                     EchoTable (ps_data (take (nat (N + 1)) analyses))], Inr ())
         \<and> int (length (ps_data (take (nat (N + 1)) analyses))) = N + 1"
proof -
  have sl: "slice_upto analyses (N + 1) = take (nat (N + 1)) analyses"
    using assms(4) by (simp add: slice_upto_take)
  have core: "ps_core w config stg N
           = (evs @ [CallAnalysisList, save_client config c'], Inr (take (nat (N + 1)) analyses))"
    using assms(1,2,3) sl by (simp add: ps_core_def)
  have len: "int (length (ps_data (take (nat (N + 1)) analyses))) = N + 1"
    using assms(4,6) by (simp add: ps_data_def)
  from core len show ?thesis by (simp add: ps_def)
qed

theorem ps_truncates_witness:
  "ps \<lparr>isfile = True,
        loaded = Inr (JObject [(''access'', JString ''tok''), (''refresh'', JString ''ref''),
                               (''username'', JString ''0xabc''), (''password'', JString ''pw'')]),
        env_username = None, env_password = None,
        prompt_address = [], prompt_password = [],
        login_op = Inr,
        analysis_list_op = Inr \<circ> Pair
          [\<lparr>uuid = ''u1'', status = ''Finished'', submitted_at = ''t1''\<rparr>,
           \<lparr>uuid = ''u2'', status = ''Finished'', submitted_at = ''t2''\<rparr>,
           \<lparr>uuid = ''u3'', status = ''Queued'', submitted_at = ''t3''\<rparr>]\<rparr> ''cfg.json'' False 1
     = ([CallAnalysisList,
         UpdateConfig ''cfg.json''
           (JObject [(''username'', JString ''0xabc''), (''password'', JString ''pw''),
                     (''access'', JString ''tok''), (''refresh'', JString ''ref'')]),
         EchoTable [(''u1'', ''Finished'', ''t1''), (''u2'', ''Finished'', ''t2'')]], Inr ())"
proof -
  let ?as = "[\<lparr>uuid = ''u1'', status = ''Finished'', submitted_at = ''t1''\<rparr>,
           \<lparr>uuid = ''u2'', status = ''Finished'', submitted_at = ''t2''\<rparr>,
           \<lparr>uuid = ''u3'', status = ''Queued'', submitted_at = ''t3''\<rparr>]"
  let ?w = "\<lparr>isfile = True,
        loaded = Inr (JObject [(''access'', JString ''tok''), (''refresh'', JString ''ref''),
                               (''username'', JString ''0xabc''), (''password'', JString ''pw'')]),
        env_username = None, env_password = None,
        prompt_address = [], prompt_password = [],
        login_op = Inr, analysis_list_op = Inr \<circ> Pair ?as\<rparr>"
  let ?c = "\<lparr>eth_address = JString ''0xabc'', password = JString ''pw'',
             access_token = JString ''tok'', refresh_token = JString ''ref'', staging = False\<rparr>"
  have h1: "recover_client ?w ''cfg.json'' False False = ([], Inr (Some ?c))"
    by (simp add: recover_client_def parse_config_def CONFIG_KEYS_def tokens_present_def)
  have h2: "eth_address ?c \<noteq> JString placeholder_address"
    by (simp add: placeholder_address_def)
  have h3: "analysis_list_op ?w ?c = Inr (?as, ?c)" by simp
  have h4: "(1::int) \<le> 1" by simp
  have h5: "(1::int) \<le> 100" by simp
  have h6: "(1::int) + 1 < int (length ?as)" by simp
  show ?thesis
    using ps_truncates [OF h1 h2 h3 h4 h5 h6]
    by (simp add: save_client_def update_config_def ps_data_def)
qed

end
